theory Spec2Isabelle
  imports Main
begin

section \<open>Data model (api/db.py, api/models.py)\<close>

text \<open>
  A cell of the JSON board column is \<open>None\<close>, \<open>"X"\<close> or \<open>"O"\<close>
  (\<open>List[List[Optional[str]]]\<close>); the board is a list of rows. Player ids and the
  request's coordinates are Python integers. The row of table \<open>moves\<close> and the row of
  table \<open>games\<close> keep the columns the game logic reads or writes; \<open>id\<close>,
  \<open>game_id\<close> and \<open>created_at\<close> are left out, and the relationship
  \<open>Game.moves\<close> is the field \<open>moves\<close>, in insertion order.
\<close>

type_synonym cell = "string option"
type_synonym board = "cell list list"

record move =
  player_id :: "int option"
  move_x :: int
  move_y :: int
  symbol :: string
  move_number :: nat

record game =
  player_x_id :: int
  player_o_id :: "int option"
  board :: board
  turn :: string
  winner :: "string option"
  complete :: bool
  opponent_type :: string
  moves :: "move list"

text \<open>The response model \<open>models.Game\<close> built at the end of every game route.\<close>

record game_out =
  out_player_x_id :: int
  out_player_o_id :: "int option"
  out_board :: board
  out_turn :: string
  out_winner :: "string option"
  out_complete :: bool

definition snapshot :: "game \<Rightarrow> game_out" where
  "snapshot g =
     \<lparr>out_player_x_id = player_x_id g, out_player_o_id = player_o_id g,
      out_board = board g, out_turn = turn g, out_winner = winner g,
      out_complete = complete g\<rparr>"

text \<open>
  Every \<open>raise HTTPException\<close> of the game routes is one constructor; \<open>Unpack_None\<close>
  is the TypeError of \<open>cx, cy = None\<close>, and \<open>Integrity_error\<close> is the IntegrityError
  that \<open>db_.commit()\<close> raises when a row breaks a constraint of its table.
\<close>

datatype error =
    Game_not_found
  | Game_complete "string option"
  | Not_your_game
  | Not_your_turn
  | Invalid_coordinates
  | Cell_not_empty
  | Invalid_opponent_type
  | Join_only_human
  | Creator_cant_join
  | Already_two_players
  | Unpack_None
  | Integrity_error

fun status_code :: "error \<Rightarrow> nat" where
  "status_code Game_not_found = 404"
| "status_code (Game_complete w) = 400"
| "status_code Not_your_game = 403"
| "status_code Not_your_turn = 400"
| "status_code Invalid_coordinates = 400"
| "status_code Cell_not_empty = 400"
| "status_code Invalid_opponent_type = 400"
| "status_code Join_only_human = 400"
| "status_code Creator_cant_join = 400"
| "status_code Already_two_players = 409"
| "status_code Unpack_None = 500"
| "status_code Integrity_error = 500"

section \<open>Board helpers (api/utils.py)\<close>

text \<open>Python truthiness of an \<open>Optional[str]\<close>: \<open>None\<close> and the empty string are false.\<close>

definition truthy :: "cell \<Rightarrow> bool" where
  "truthy c = (case c of None \<Rightarrow> False | Some s \<Rightarrow> s \<noteq> [])"

text \<open>Truthiness of the nullable integer column \<open>player_o_id\<close>: \<open>None\<close> and 0 are false.\<close>

definition truthy_id :: "int option \<Rightarrow> bool" where
  "truthy_id p = (case p of None \<Rightarrow> False | Some n \<Rightarrow> n \<noteq> 0)"

definition empty_board :: board where
  "empty_board = [[None, None, None], [None, None, None], [None, None, None]]"

text \<open>
  The shape every board of the table has: three rows of three cells. The functions below
  index rows and cells with \<open>!\<close>; on a board of another shape Python would raise
  IndexError, so every statement about them is made for boards of this shape; the board
  of every game the routes produce has it.
\<close>

definition board_ok :: "board \<Rightarrow> bool" where
  "board_ok b \<longleftrightarrow> length b = 3 \<and> list_all (\<lambda>row. length row = 3) b"

text \<open>\<open>board[i][j] = v\<close>, for indices in range.\<close>

definition set_cell :: "board \<Rightarrow> nat \<Rightarrow> nat \<Rightarrow> cell \<Rightarrow> board" where
  "set_cell b i j v = b[i := (b ! i)[j := v]]"

text \<open>\<open>sum(1 for row in board for cell in row if cell)\<close>\<close>

definition occupied :: "board \<Rightarrow> nat" where
  "occupied b = length (filter truthy (concat b))"

text \<open>\<open>all(cell for row in board for cell in row)\<close>\<close>

definition is_board_full :: "board \<Rightarrow> bool" where
  "is_board_full b = list_all truthy (concat b)"

text \<open>
  \<open>generate_computer_move\<close>: the empty cells in row-major order, \<open>None\<close> when there is
  none, otherwise \<open>random.choice\<close> of them. The random draw is the argument \<open>pick\<close>:
  the chosen element is the one at index \<open>pick mod length\<close>, so every element is
  chosen by some \<open>pick\<close>.
\<close>

definition empty_cells :: "board \<Rightarrow> (nat \<times> nat) list" where
  "empty_cells b = [(i, j). i \<leftarrow> [0..<3], j \<leftarrow> [0..<3], \<not> truthy (b ! i ! j)]"

definition generate_computer_move :: "nat \<Rightarrow> board \<Rightarrow> (nat \<times> nat) option" where
  "generate_computer_move pick b =
     (let cells = empty_cells b
      in if cells = [] then None else Some (cells ! (pick mod length cells)))"

text \<open>
  \<open>check_winner\<close>: for each symbol of \<open>["X", "O"]\<close> in this order, the rows and
  columns \<open>i = 0, 1, 2\<close>, then the two diagonals; the first symbol with a uniform line
  is returned.
\<close>

definition line_found :: "board \<Rightarrow> string \<Rightarrow> bool" where
  "line_found b s \<longleftrightarrow>
     list_ex (\<lambda>i. list_all (\<lambda>c. c = Some s) (b ! i)
                \<or> list_all (\<lambda>r. b ! r ! i = Some s) [0..<3]) [0..<3]
     \<or> list_all (\<lambda>i. b ! i ! i = Some s) [0..<3]
     \<or> list_all (\<lambda>i. b ! i ! (2 - i) = Some s) [0..<3]"

definition check_winner :: "board \<Rightarrow> string option" where
  "check_winner b = find (line_found b) [''X'', ''O'']"

section \<open>Game routes (api/routes.py)\<close>

text \<open>
  The state of a route is the row of table \<open>games\<close> with the requested id, \<open>None\<close>
  when the query finds none; a route returns its response, or the error it raised,
  together with the row as the table holds it afterwards.
\<close>

definition create_game :: "int \<Rightarrow> string \<Rightarrow> error + game" where
  "create_game current_player ot =
     (if ot = ''human'' \<or> ot = ''computer'' then
        Inr \<lparr>player_x_id = current_player, player_o_id = None, board = empty_board,
             turn = ''X'', winner = None, complete = False, opponent_type = ot,
             moves = []\<rparr>
      else Inl Invalid_opponent_type)"

definition join_game :: "game option \<Rightarrow> int \<Rightarrow> (error + game_out) \<times> game option" where
  "join_game row current_player =
     (case row of
        None \<Rightarrow> (Inl Game_not_found, row)
      | Some g \<Rightarrow>
          if opponent_type g \<noteq> ''human'' then (Inl Join_only_human, row)
          else if player_x_id g = current_player then (Inl Creator_cant_join, row)
          else if truthy_id (player_o_id g) then (Inl Already_two_players, row)
          else let g' = g\<lparr>player_o_id := Some current_player\<rparr>
               in (Inr (snapshot g'), Some g'))"

text \<open>
  The environment of one \<open>play_move\<close> request: the random draw of the computer
  opponent.
\<close>

record env =
  pick :: nat

text \<open>Lines 215-221: the symbol the requesting player moves for.\<close>

definition resolve_symbol :: "game \<Rightarrow> int \<Rightarrow> string option" where
  "resolve_symbol g current_player =
     (if player_x_id g = current_player then Some ''X''
      else if player_o_id g = Some current_player
              \<or> (opponent_type g = ''computer'' \<and> player_o_id g = None) then Some ''O''
      else None)"

text \<open>
  Lines 244-251 and 268-275: winner, draw or next turn, decided on the board after a
  placement; \<open>next_turn\<close> is the turn written when the game goes on.
\<close>

definition settle :: "game \<Rightarrow> string \<Rightarrow> game" where
  "settle g next_turn =
     (let w = check_winner (board g)
      in if truthy w then g\<lparr>winner := w, complete := True\<rparr>
         else if is_board_full (board g) then g\<lparr>winner := Some ''draw'', complete := True\<rparr>
         else g\<lparr>turn := next_turn\<rparr>)"

text \<open>
  Lines 229-251: the requesting player's placement. The result is the game object as it
  is in memory before the first commit, the row of \<open>moves\<close> to be added, and
  \<open>move_number\<close>.
\<close>

definition human_update :: "game \<Rightarrow> int \<Rightarrow> int \<Rightarrow> int \<Rightarrow> string \<Rightarrow> game \<times> move \<times> nat" where
  "human_update g current_player x y mark =
     (let b = set_cell (board g) (nat x) (nat y) (Some mark);
          n = occupied b;
          db_move = \<lparr>player_id = Some current_player, move_x = x, move_y = y,
                     symbol = mark, move_number = n\<rparr>;
          g_mem = settle (g\<lparr>board := b, complete := False\<rparr>)
                    (if mark = ''X'' then ''O'' else ''X'')
      in (g_mem, db_move, n))"

text \<open>
  Lines 258-275: the computer's placement at \<open>(cx, cy)\<close>: the game object in memory
  before the second commit and the row of \<open>moves\<close> to be added.
\<close>

definition computer_update :: "game \<Rightarrow> nat \<Rightarrow> nat \<Rightarrow> nat \<Rightarrow> game \<times> move" where
  "computer_update g cx cy n =
     (let b = set_cell (board g) cx cy (Some ''O'');
          db_move_comp = \<lparr>player_id = None, move_x = int cx, move_y = int cy,
                          symbol = ''O'', move_number = n + 1\<rparr>;
          g_mem = settle (g\<lparr>board := b\<rparr>) ''X''
      in (g_mem, db_move_comp))"

text \<open>
  \<open>db_.commit()\<close> followed by \<open>db_.refresh(g)\<close> (lines 252-254 and 276-278).

  The commit inserts the added row of \<open>moves\<close>. db.py line 51 declares
  \<open>moves.player_id\<close> with \<open>nullable=False\<close>: a row whose \<open>player_id\<close> is
  \<open>None\<close> is refused, the commit raises IntegrityError and stores nothing.

  The commit updates the columns of the game whose value the session sees as changed.
  The scalar columns \<open>turn\<close>, \<open>winner\<close> and \<open>complete\<close> are assigned new values.
  The column \<open>board\<close> is a plain \<open>Column(JSON)\<close> (db.py line 36) without mutation
  tracking: lines 226-229 take the list that the row was loaded with and change it in
  place, line 240 assigns that same list back, and line 258 again changes the loaded list
  in place. The value assigned is the value loaded, so no update of \<open>board\<close> is
  written, and the refresh reads back the board that the table held before the request.
\<close>

definition insertable :: "move \<Rightarrow> bool" where
  "insertable m \<longleftrightarrow> player_id m \<noteq> None"

definition commit_refresh :: "game \<Rightarrow> game \<Rightarrow> move \<Rightarrow> game" where
  "commit_refresh stored g_mem m = g_mem\<lparr>board := board stored, moves := moves stored @ [m]\<rparr>"

definition play_move ::
  "env \<Rightarrow> game option \<Rightarrow> int \<Rightarrow> int \<Rightarrow> int \<Rightarrow> (error + game_out) \<times> game option" where
  "play_move e row current_player x y =
     (case row of
        None \<Rightarrow> (Inl Game_not_found, row)
      | Some g \<Rightarrow>
          if complete g then (Inl (Game_complete (winner g)), row)
          else
            (case resolve_symbol g current_player of
               None \<Rightarrow> (Inl Not_your_game, row)
             | Some mark \<Rightarrow>
                 if turn g \<noteq> mark then (Inl Not_your_turn, row)
                 else if \<not> (0 \<le> x \<and> x < 3 \<and> 0 \<le> y \<and> y < 3) then
                   (Inl Invalid_coordinates, row)
                 else if truthy (board g ! nat x ! nat y) then (Inl Cell_not_empty, row)
                 else
                   (let (g_mem, db_move, n) = human_update g current_player x y mark
                    in if \<not> insertable db_move then (Inl Integrity_error, row)
                       else
                         (let g1 = commit_refresh g g_mem db_move
                          in if opponent_type g1 = ''computer'' \<and> \<not> complete g1
                                \<and> turn g1 = ''O'' then
                               (case generate_computer_move (pick e) (board g1) of
                                  None \<Rightarrow> (Inl Unpack_None, Some g1)
                                | Some (cx, cy) \<Rightarrow>
                                    (let (g2_mem, db_move_comp) = computer_update g1 cx cy n
                                     in if \<not> insertable db_move_comp then
                                          (Inl Integrity_error, Some g1)
                                        else
                                          (Inr (snapshot
                                                 (commit_refresh g1 g2_mem db_move_comp)),
                                           Some (commit_refresh g1 g2_mem db_move_comp))))
                             else (Inr (snapshot g1), Some g1)))))"

section \<open>Notions used by the properties\<close>

text \<open>The validation of lines 213-228 passes, and the player moves for \<open>mark\<close>.\<close>

definition valid_request :: "game \<Rightarrow> int \<Rightarrow> int \<Rightarrow> int \<Rightarrow> string \<Rightarrow> bool" where
  "valid_request g current_player x y mark \<longleftrightarrow>
     \<not> complete g \<and> resolve_symbol g current_player = Some mark \<and> turn g = mark
     \<and> 0 \<le> x \<and> x < 3 \<and> 0 \<le> y \<and> y < 3 \<and> \<not> truthy (board g ! nat x ! nat y)"

text \<open>The board in memory after the player's placement (line 229).\<close>

definition marked_board :: "game \<Rightarrow> int \<Rightarrow> int \<Rightarrow> string \<Rightarrow> board" where
  "marked_board g x y mark = set_cell (board g) (nat x) (nat y) (Some mark)"

text \<open>The row of the game after the first commit and refresh (lines 252-254).\<close>

definition first_commit :: "game \<Rightarrow> int \<Rightarrow> int \<Rightarrow> int \<Rightarrow> string \<Rightarrow> game" where
  "first_commit g current_player x y mark =
     (let (g_mem, db_move, n) = human_update g current_player x y mark
      in commit_refresh g g_mem db_move)"

text \<open>The condition of line 256, under which the computer replies.\<close>

definition computer_due :: "game \<Rightarrow> bool" where
  "computer_due g \<longleftrightarrow> opponent_type g = ''computer'' \<and> \<not> complete g \<and> turn g = ''O''"

text \<open>The five validation rejections of \<open>play_move\<close>.\<close>

fun rejection :: "error \<Rightarrow> bool" where
  "rejection (Game_complete w) = True"
| "rejection Not_your_game = True"
| "rejection Not_your_turn = True"
| "rejection Invalid_coordinates = True"
| "rejection Cell_not_empty = True"
| "rejection _ = False"

text \<open>The games the routes can produce: created, then joined and played on.\<close>

inductive reachable :: "game \<Rightarrow> bool" where
  created: "create_game current_player ot = Inr g \<Longrightarrow> reachable g"
| joined: "reachable g \<Longrightarrow> join_game (Some g) current_player = (r, Some g') \<Longrightarrow> reachable g'"
| moved: "reachable g \<Longrightarrow> play_move e (Some g) current_player x y = (r, Some g')
            \<Longrightarrow> reachable g'"



text \<open>The symbols \<open>X, O, X, O, ...\<close> of the first \<open>n\<close> moves.\<close>

definition alternating :: "nat \<Rightarrow> string list" where
  "alternating n = map (\<lambda>i. if even i then ''X'' else ''O'') [0..<n]"

text \<open>Replaying a move log: each entry's symbol is placed at its coordinates.\<close>

definition place :: "move \<Rightarrow> board \<Rightarrow> board" where
  "place m b = set_cell b (nat (move_x m)) (nat (move_y m)) (Some (symbol m))"

definition replay :: "move list \<Rightarrow> board" where
  "replay ms = fold place ms empty_board"

text \<open>The eight lines of the grid, as the cells they consist of.\<close>

definition line_cells :: "(nat \<times> nat) list list" where
  "line_cells =
     [[(0, 0), (0, 1), (0, 2)], [(1, 0), (1, 1), (1, 2)], [(2, 0), (2, 1), (2, 2)],
      [(0, 0), (1, 0), (2, 0)], [(0, 1), (1, 1), (2, 1)], [(0, 2), (1, 2), (2, 2)],
      [(0, 0), (1, 1), (2, 2)], [(0, 2), (1, 1), (2, 0)]]"

definition uniform_line :: "board \<Rightarrow> string \<Rightarrow> bool" where
  "uniform_line b s \<longleftrightarrow>
     list_ex (\<lambda>l. list_all (\<lambda>(r, c). b ! r ! c = Some s) l) line_cells"

text \<open>
  What holds of every game the routes produce: the stored board is the empty board of
  its creation, the game is open, and the log holds the players' moves only, in
  alternating symbols, each with move number 1.
\<close>

definition stored_inv :: "game \<Rightarrow> bool" where
  "stored_inv g \<longleftrightarrow>
     board g = empty_board \<and> \<not> complete g \<and> winner g = None
     \<and> map symbol (moves g) = alternating (length (moves g))
     \<and> turn g = (if even (length (moves g)) then ''X'' else ''O'')
     \<and> list_all (\<lambda>m. move_number m = 1 \<and> player_id m \<noteq> None) (moves g)"

text \<open>A human game whose O seat is unassigned has at most one move.\<close>

definition seat_inv :: "game \<Rightarrow> bool" where
  "seat_inv g \<longleftrightarrow>
     (opponent_type g = ''human'' \<and> player_o_id g = None \<longrightarrow> length (moves g) \<le> 1)"

text \<open>A sequence of move requests \<open>(player, x, y)\<close>, each on the row the last one left.\<close>

fun play_all :: "env \<Rightarrow> game option \<Rightarrow> (int \<times> int \<times> int) list \<Rightarrow> game option" where
  "play_all e row [] = row"
| "play_all e row ((p, x, y) # rs) = play_all e (snd (play_move e row p x y)) rs"

text \<open>Concrete games and an environment used to run the routes.\<close>

definition env_ok :: env where
  "env_ok = \<lparr>pick = 0\<rparr>"

definition game_h :: game where
  "game_h = \<lparr>player_x_id = 1, player_o_id = None, board = empty_board, turn = ''X'',
             winner = None, complete = False, opponent_type = ''human'', moves = []\<rparr>"

definition game_c :: game where
  "game_c = \<lparr>player_x_id = 1, player_o_id = None, board = empty_board, turn = ''X'',
             winner = None, complete = False, opponent_type = ''computer'', moves = []\<rparr>"

text \<open>The row of \<open>game_h\<close> after its creator's request X(0, 0).\<close>

definition game_h1 :: game where
  "game_h1 = \<lparr>player_x_id = 1, player_o_id = None, board = empty_board,
      turn = ''O'', winner = None, complete = False, opponent_type = ''human'',
      moves = [\<lparr>player_id = Some 1, move_x = 0, move_y = 0, symbol = ''X'',
                move_number = 1\<rparr>]\<rparr>"

text \<open>The row of \<open>game_c\<close> after its creator's request X(0, 0).\<close>

definition game_c1 :: game where
  "game_c1 = \<lparr>player_x_id = 1, player_o_id = None, board = empty_board,
      turn = ''O'', winner = None, complete = False, opponent_type = ''computer'',
      moves = [\<lparr>player_id = Some 1, move_x = 0, move_y = 0, symbol = ''X'',
                move_number = 1\<rparr>]\<rparr>"

text \<open>\<open>game_h\<close> joined by player 2, after the requests X(0, 0) and O(1, 1).\<close>

definition game_h2 :: game where
  "game_h2 = \<lparr>player_x_id = 1, player_o_id = Some 2, board = empty_board,
      turn = ''X'', winner = None, complete = False, opponent_type = ''human'',
      moves = [\<lparr>player_id = Some 1, move_x = 0, move_y = 0, symbol = ''X'', move_number = 1\<rparr>,
               \<lparr>player_id = Some 2, move_x = 1, move_y = 1, symbol = ''O'', move_number = 1\<rparr>]\<rparr>"

text \<open>
  \<open>game_h\<close> joined by player 2, after the requests X(0,0), O(1,1), X(0,1), O(1,0),
  X(0,2); and the board these five moves are meant to give.
\<close>

definition game_five :: game where
  "game_five = \<lparr>player_x_id = 1, player_o_id = Some 2, board = empty_board,
      turn = ''O'', winner = None, complete = False, opponent_type = ''human'',
      moves = [\<lparr>player_id = Some 1, move_x = 0, move_y = 0, symbol = ''X'', move_number = 1\<rparr>,
               \<lparr>player_id = Some 2, move_x = 1, move_y = 1, symbol = ''O'', move_number = 1\<rparr>,
               \<lparr>player_id = Some 1, move_x = 0, move_y = 1, symbol = ''X'', move_number = 1\<rparr>,
               \<lparr>player_id = Some 2, move_x = 1, move_y = 0, symbol = ''O'', move_number = 1\<rparr>,
               \<lparr>player_id = Some 1, move_x = 0, move_y = 2, symbol = ''X'', move_number = 1\<rparr>]\<rparr>"

definition board_top_row :: board where
  "board_top_row = [[Some ''X'', Some ''X'', Some ''X''], [Some ''O'', Some ''O'', None],
                    [None, None, None]]"


section \<open>The shape of the board\<close>

lemma list3: "length xs = 3 \<Longrightarrow> \<exists>a b c. xs = [a, b, c]"
  by (auto simp: numeral_3_eq_3 length_Suc_conv)

lemma board_ok_cases:
  assumes "board_ok b"
  obtains c00 c01 c02 c10 c11 c12 c20 c21 c22 where
    "b = [[c00, c01, c02], [c10, c11, c12], [c20, c21, c22]]"
proof -
  from assms have "length b = 3" by (simp add: board_ok_def)
  then obtain r0 r1 r2 where b: "b = [r0, r1, r2]" using list3 by blast
  with assms have l: "length r0 = 3" "length r1 = 3" "length r2 = 3"
    by (simp_all add: board_ok_def)
  from l(1) obtain c00 c01 c02 where r0: "r0 = [c00, c01, c02]" using list3 by blast
  from l(2) obtain c10 c11 c12 where r1: "r1 = [c10, c11, c12]" using list3 by blast
  from l(3) obtain c20 c21 c22 where r2: "r2 = [c20, c21, c22]" using list3 by blast
  show thesis using that[of c00 c01 c02 c10 c11 c12 c20 c21 c22] b r0 r1 r2 by simp
qed

lemma lt3: "(i::nat) < 3 \<Longrightarrow> i = 0 \<or> i = Suc 0 \<or> i = Suc (Suc 0)"
  by arith

lemma board_ok_set_cell:
  assumes "board_ok b"
  shows "board_ok (set_cell b i j v)"
proof (cases "i < length b")
  case True
  have rows: "\<forall>r \<in> set b. length r = 3"
    using assms by (simp add: board_ok_def list_all_iff)
  then have "length ((b ! i)[j := v]) = 3" using True by simp
  moreover have "set (b[i := (b ! i)[j := v]]) \<subseteq> insert ((b ! i)[j := v]) (set b)"
    by (rule set_update_subset_insert)
  ultimately have "\<forall>r \<in> set (set_cell b i j v). length r = 3"
    using rows unfolding set_cell_def by blast
  then show ?thesis using assms by (simp add: board_ok_def list_all_iff set_cell_def)
next
  case False
  then have "b[i := (b ! i)[j := v]] = b" by (simp add: list_update_beyond)
  then show ?thesis using assms by (simp add: set_cell_def)
qed

lemma occupied_set_cell:
  assumes "board_ok b" "i < 3" "j < 3" "\<not> truthy (b ! i ! j)" "truthy v"
  shows "occupied (set_cell b i j v) = Suc (occupied b)"
proof -
  from assms(1) obtain c00 c01 c02 c10 c11 c12 c20 c21 c22 where
    b: "b = [[c00, c01, c02], [c10, c11, c12], [c20, c21, c22]]" by (rule board_ok_cases)
  from lt3[OF assms(2)] lt3[OF assms(3)] assms(4,5) show ?thesis
    unfolding b by (elim disjE) (simp_all add: occupied_def set_cell_def)
qed

section \<open>Win detection and counting\<close>

lemma line_found_iff:
  assumes "board_ok b"
  shows "line_found b s \<longleftrightarrow> uniform_line b s"
proof -
  from assms obtain c00 c01 c02 c10 c11 c12 c20 c21 c22 where
    b: "b = [[c00, c01, c02], [c10, c11, c12], [c20, c21, c22]]" by (rule board_ok_cases)
  have l: "line_found b s \<longleftrightarrow>
      (c00 = Some s \<and> c01 = Some s \<and> c02 = Some s) \<or> (c00 = Some s \<and> c10 = Some s \<and> c20 = Some s)
    \<or> (c10 = Some s \<and> c11 = Some s \<and> c12 = Some s) \<or> (c01 = Some s \<and> c11 = Some s \<and> c21 = Some s)
    \<or> (c20 = Some s \<and> c21 = Some s \<and> c22 = Some s) \<or> (c02 = Some s \<and> c12 = Some s \<and> c22 = Some s)
    \<or> (c00 = Some s \<and> c11 = Some s \<and> c22 = Some s) \<or> (c02 = Some s \<and> c11 = Some s \<and> c20 = Some s)"
    unfolding b by (simp add: line_found_def upt_rec disj_ac)
  have u: "uniform_line b s \<longleftrightarrow>
      (c00 = Some s \<and> c01 = Some s \<and> c02 = Some s) \<or> (c10 = Some s \<and> c11 = Some s \<and> c12 = Some s)
    \<or> (c20 = Some s \<and> c21 = Some s \<and> c22 = Some s) \<or> (c00 = Some s \<and> c10 = Some s \<and> c20 = Some s)
    \<or> (c01 = Some s \<and> c11 = Some s \<and> c21 = Some s) \<or> (c02 = Some s \<and> c12 = Some s \<and> c22 = Some s)
    \<or> (c00 = Some s \<and> c11 = Some s \<and> c22 = Some s) \<or> (c02 = Some s \<and> c11 = Some s \<and> c20 = Some s)"
    unfolding b by (simp add: uniform_line_def line_cells_def)
  show ?thesis unfolding l u by (intro iffI; elim disjE; simp)
qed




lemma length_filter_sum:
  "length (filter P xs) = sum_list (map (\<lambda>x. if P x then 1 else 0) xs)"
  by (induction xs) simp_all

lemma occupied_explicit:
  "occupied [[c00, c01, c02], [c10, c11, c12], [c20, c21, c22]] =
     (if truthy c00 then 1 else 0) + (if truthy c01 then 1 else 0) + (if truthy c02 then 1 else 0)
   + (if truthy c10 then 1 else 0) + (if truthy c11 then 1 else 0) + (if truthy c12 then 1 else 0)
   + (if truthy c20 then 1 else 0) + (if truthy c21 then 1 else 0) + (if truthy c22 then 1 else 0)"
  unfolding occupied_def length_filter_sum by (simp del: if_split cong: if_cong)

lemma uniform_line_occupied:
  assumes "board_ok b" "uniform_line b s" "s \<noteq> []"
  shows "3 \<le> occupied b"
proof -
  from assms(1) obtain c00 c01 c02 c10 c11 c12 c20 c21 c22 where
    b: "b = [[c00, c01, c02], [c10, c11, c12], [c20, c21, c22]]" by (rule board_ok_cases)
  define f :: "cell \<Rightarrow> nat" where "f c = (if truthy c then 1 else 0)" for c
  have occ: "occupied b = f c00 + f c01 + f c02 + f c10 + f c11 + f c12 + f c20 + f c21 + f c22"
    unfolding b occupied_explicit f_def ..
  have t: "f (Some s) = 1" using assms(3) by (simp add: f_def truthy_def)
  from assms(2) have
    "(c00 = Some s \<and> c01 = Some s \<and> c02 = Some s) \<or> (c10 = Some s \<and> c11 = Some s \<and> c12 = Some s)
    \<or> (c20 = Some s \<and> c21 = Some s \<and> c22 = Some s) \<or> (c00 = Some s \<and> c10 = Some s \<and> c20 = Some s)
    \<or> (c01 = Some s \<and> c11 = Some s \<and> c21 = Some s) \<or> (c02 = Some s \<and> c12 = Some s \<and> c22 = Some s)
    \<or> (c00 = Some s \<and> c11 = Some s \<and> c22 = Some s) \<or> (c02 = Some s \<and> c11 = Some s \<and> c20 = Some s)"
    unfolding b by (simp add: uniform_line_def line_cells_def)
  then show ?thesis unfolding occ using t
    by (elim disjE conjE) simp_all
qed

lemma full_occupied:
  assumes "board_ok b" "is_board_full b"
  shows "occupied b = 9"
proof -
  from assms(1) obtain c00 c01 c02 c10 c11 c12 c20 c21 c22 where
    b: "b = [[c00, c01, c02], [c10, c11, c12], [c20, c21, c22]]" by (rule board_ok_cases)
  from assms(2) have "filter truthy (concat b) = concat b"
    by (simp add: is_board_full_def list_all_iff)
  then show ?thesis unfolding occupied_def by (simp add: b)
qed

lemma one_cell_open:
  assumes "board_ok b" "occupied b = 1"
  shows "check_winner b = None \<and> \<not> is_board_full b"
proof
  show "check_winner b = None"
  proof (rule ccontr)
    assume "check_winner b \<noteq> None"
    then obtain s where s: "check_winner b = Some s" by auto
    then have "line_found b s" "s \<noteq> []"
      by (auto simp: check_winner_def split: if_splits)
    then have "3 \<le> occupied b"
      using uniform_line_occupied[OF assms(1)] line_found_iff[OF assms(1)] by simp
    then show False using assms(2) by simp
  qed
  show "\<not> is_board_full b" using full_occupied[OF assms(1)] assms(2) by auto
qed

section \<open>The outcome of a placement\<close>



lemma settle_frame [simp]:
  "board (settle g t) = board g" "moves (settle g t) = moves g"
  "player_x_id (settle g t) = player_x_id g" "player_o_id (settle g t) = player_o_id g"
  "opponent_type (settle g t) = opponent_type g"
  by (simp_all add: settle_def Let_def)




lemma alternating_Suc:
  "alternating (Suc n) = alternating n @ [if even n then ''X'' else ''O'']"
  by (simp add: alternating_def)

section \<open>The row a move request leaves\<close>

lemma first_commit_eq:
  "first_commit g p x y mark =
     (settle (g\<lparr>board := marked_board g x y mark, complete := False\<rparr>)
        (if mark = ''X'' then ''O'' else ''X''))
     \<lparr>board := board g,
      moves := moves g @ [\<lparr>player_id = Some p, move_x = x, move_y = y, symbol = mark,
                           move_number = occupied (marked_board g x y mark)\<rparr>]\<rparr>"
  by (simp add: first_commit_def human_update_def commit_refresh_def marked_board_def Let_def)

lemma first_commit_frame [simp]:
  "board (first_commit g p x y mark) = board g"
  "player_x_id (first_commit g p x y mark) = player_x_id g"
  "player_o_id (first_commit g p x y mark) = player_o_id g"
  "opponent_type (first_commit g p x y mark) = opponent_type g"
  by (simp_all add: first_commit_eq)

lemma first_commit_moves:
  "moves (first_commit g p x y mark) =
     moves g @ [\<lparr>player_id = Some p, move_x = x, move_y = y, symbol = mark,
                 move_number = occupied (marked_board g x y mark)\<rparr>]"
  by (simp add: first_commit_eq)




lemma play_move_rejected:
  assumes "\<not> (\<exists>mark. valid_request g p x y mark)"
  shows "\<exists>err. play_move e (Some g) p x y = (Inl err, Some g) \<and> rejection err"
  using assms
  by (auto simp: play_move_def valid_request_def split: option.splits)

lemma play_move_valid:
  assumes "valid_request g p x y mark"
  shows "play_move e (Some g) p x y =
     (if computer_due (first_commit g p x y mark) then
        (case generate_computer_move (pick e) (board (first_commit g p x y mark)) of
           None \<Rightarrow> (Inl Unpack_None, Some (first_commit g p x y mark))
         | Some c \<Rightarrow> (Inl Integrity_error, Some (first_commit g p x y mark)))
      else (Inr (snapshot (first_commit g p x y mark)), Some (first_commit g p x y mark)))"
  using assms
  by (simp add: play_move_def valid_request_def computer_due_def first_commit_def
      human_update_def computer_update_def insertable_def Let_def
      split: prod.splits option.splits)

lemma play_move_row_cases:
  assumes "play_move e (Some g) p x y = (r, Some g')"
  shows "g' = g \<or> (\<exists>mark. valid_request g p x y mark \<and> g' = first_commit g p x y mark)"
proof (cases "\<exists>mark. valid_request g p x y mark")
  case False
  from play_move_rejected[OF this, of e] assms show ?thesis by auto
next
  case True
  then obtain mark where v: "valid_request g p x y mark" ..
  from assms have "g' = first_commit g p x y mark"
    unfolding play_move_valid[OF v] by (auto split: if_splits option.splits)
  then show ?thesis using v by blast
qed

lemma valid_request_turn: "valid_request g p x y mark \<Longrightarrow> mark = turn g"
  by (simp add: valid_request_def)

lemma valid_request_mark: "valid_request g p x y mark \<Longrightarrow> mark = ''X'' \<or> mark = ''O''"
  by (auto simp: valid_request_def resolve_symbol_def split: if_splits)

lemma accepted_valid:
  assumes "play_move e (Some g) p x y = (Inr out, row')"
  shows "valid_request g p x y (turn g)"
proof (rule ccontr)
  assume n: "\<not> valid_request g p x y (turn g)"
  have "\<not> (\<exists>mark. valid_request g p x y mark)"
    using n valid_request_turn by blast
  from play_move_rejected[OF this, of e] assms show False by auto
qed

section \<open>Invariants of reachable games\<close>

lemma board_ok_empty: "board_ok empty_board"
  by (simp add: board_ok_def empty_board_def)

lemma occupied_empty: "occupied empty_board = 0"
  by (simp add: occupied_def empty_board_def truthy_def)

lemma first_mark:
  assumes "i < 3" "j < 3" "mark \<noteq> []"
  shows "occupied (set_cell empty_board i j (Some mark)) = 1"
    and "check_winner (set_cell empty_board i j (Some mark)) = None"
    and "\<not> is_board_full (set_cell empty_board i j (Some mark))"
proof -
  have e: "\<not> truthy (empty_board ! i ! j)"
    using lt3[OF assms(1)] lt3[OF assms(2)]
    by (elim disjE) (simp_all add: empty_board_def truthy_def)
  have t: "truthy (Some mark)" using assms(3) by (simp add: truthy_def)
  show o: "occupied (set_cell empty_board i j (Some mark)) = 1"
    using occupied_set_cell[OF board_ok_empty assms(1,2) e t] occupied_empty by simp
  have ok: "board_ok (set_cell empty_board i j (Some mark))"
    using board_ok_empty by (rule board_ok_set_cell)
  from one_cell_open[OF ok o]
  show "check_winner (set_cell empty_board i j (Some mark)) = None"
    and "\<not> is_board_full (set_cell empty_board i j (Some mark))" by simp_all
qed

lemma stored_first_commit:
  assumes s: "stored_inv g" and v: "valid_request g p x y mark"
  shows "first_commit g p x y mark =
     g\<lparr>turn := (if mark = ''X'' then ''O'' else ''X''),
       moves := moves g @ [\<lparr>player_id = Some p, move_x = x, move_y = y, symbol = mark,
                            move_number = 1\<rparr>]\<rparr>"
proof -
  have b: "board g = empty_board" and c: "\<not> complete g" using s by (simp_all add: stored_inv_def)
  have xy: "nat x < 3" "nat y < 3" using v by (auto simp: valid_request_def)
  have m: "mark \<noteq> []" using valid_request_mark[OF v] by auto
  have mb: "marked_board g x y mark = set_cell empty_board (nat x) (nat y) (Some mark)"
    by (simp add: marked_board_def b)
  note f = first_mark[OF xy m]
  have "settle (g\<lparr>board := marked_board g x y mark, complete := False\<rparr>)
          (if mark = ''X'' then ''O'' else ''X'')
        = g\<lparr>board := marked_board g x y mark, complete := False,
             turn := (if mark = ''X'' then ''O'' else ''X'')\<rparr>"
    using f(2,3) by (simp add: settle_def Let_def mb truthy_def)
  then show ?thesis using c f(1) by (simp add: first_commit_eq mb)
qed

lemma stored_inv_first_commit:
  assumes s: "stored_inv g" and v: "valid_request g p x y mark"
  shows "stored_inv (first_commit g p x y mark)"
proof -
  have mk: "mark = (if even (length (moves g)) then ''X'' else ''O'')"
    using s valid_request_turn[OF v] by (simp add: stored_inv_def)
  show ?thesis
    unfolding stored_first_commit[OF s v] using s mk
    by (auto simp: stored_inv_def alternating_Suc)
qed

lemma seat_inv_first_commit:
  assumes s: "stored_inv g" and t: "seat_inv g" and v: "valid_request g p x y mark"
  shows "seat_inv (first_commit g p x y mark)"
proof -
  { assume h: "opponent_type g = ''human''" "player_o_id g = None"
    from v h have "mark = ''X''"
      by (auto simp: valid_request_def resolve_symbol_def split: if_splits)
    then have "turn g = ''X''" using valid_request_turn[OF v] by simp
    then have "even (length (moves g))" using s by (auto simp: stored_inv_def split: if_splits)
    moreover from t h have "length (moves g) \<le> 1" by (simp add: seat_inv_def)
    ultimately have "length (moves g) = 0" by (cases "length (moves g)") auto
    then have "length (moves (first_commit g p x y mark)) \<le> 1"
      by (simp add: first_commit_moves) }
  then show ?thesis by (simp add: seat_inv_def)
qed




lemma create_game_inv:
  assumes "create_game c ot = Inr g"
  shows "stored_inv g \<and> seat_inv g"
proof -
  from assms have g: "g = \<lparr>player_x_id = c, player_o_id = None, board = empty_board,
             turn = ''X'', winner = None, complete = False, opponent_type = ot,
             moves = []\<rparr>"
    by (auto simp: create_game_def split: if_splits)
  show ?thesis unfolding g by (simp add: stored_inv_def seat_inv_def alternating_def)
qed

lemma join_game_inv:
  assumes "join_game (Some g) c = (r, Some g')" "stored_inv g \<and> seat_inv g"
  shows "stored_inv g' \<and> seat_inv g'"
proof -
  from assms(1) have "g' = g \<or> g' = g\<lparr>player_o_id := Some c\<rparr>"
    by (auto simp: join_game_def Let_def split: if_splits)
  moreover have "stored_inv (g\<lparr>player_o_id := Some c\<rparr>) = stored_inv g"
    by (simp add: stored_inv_def)
  moreover have "seat_inv (g\<lparr>player_o_id := Some c\<rparr>)"
    by (simp add: seat_inv_def)
  ultimately show ?thesis using assms(2) by auto
qed

lemma play_move_inv:
  assumes "play_move e (Some g) p x y = (r, Some g')" "stored_inv g \<and> seat_inv g"
  shows "stored_inv g' \<and> seat_inv g'"
  using play_move_row_cases[OF assms(1)] assms(2)
    stored_inv_first_commit seat_inv_first_commit by blast

lemma reachable_inv: "reachable g \<Longrightarrow> stored_inv g \<and> seat_inv g"
proof (induction rule: reachable.induct)
  case (created c ot g)
  then show ?case by (rule create_game_inv)
next
  case (joined g c r g')
  then show ?case using join_game_inv by blast
next
  case (moved g e c x y r g')
  then show ?case using play_move_inv by blast
qed

section \<open>Games reached by concrete requests\<close>

lemma game_h1_played:
  "play_move env_ok (Some game_h) 1 0 0 = (Inr (snapshot game_h1), Some game_h1)"
  by code_simp

lemma game_c1_played:
  "play_move env_ok (Some game_c) 1 0 0 = (Inl Integrity_error, Some game_c1)"
  by code_simp

lemma game_h2_played:
  "play_all env_ok (snd (join_game (Some game_h) 2)) [(1, 0, 0), (2, 1, 1)] = Some game_h2"
  by code_simp

lemma game_five_played:
  "play_all env_ok (snd (join_game (Some game_h) 2))
       [(1, 0, 0), (2, 1, 1), (1, 0, 1), (2, 1, 0), (1, 0, 2)] = Some game_five"
  by code_simp

lemma play_move_Some: "\<exists>g'. snd (play_move e (Some g) p x y) = Some g'"
proof (cases "\<exists>mark. valid_request g p x y mark")
  case False
  from play_move_rejected[OF this, of e] show ?thesis by auto
next
  case True
  then obtain mark where v: "valid_request g p x y mark" ..
  show ?thesis unfolding play_move_valid[OF v] by (auto split: option.splits)
qed

lemma reachable_play_all:
  "reachable g \<Longrightarrow> play_all e (Some g) rs = Some g' \<Longrightarrow> reachable g'"
proof (induction rs arbitrary: g)
  case Nil
  then show ?case by simp
next
  case (Cons a rs)
  obtain p x y where a: "a = (p, x, y)" by (cases a) auto
  obtain g1 where g1: "snd (play_move e (Some g) p x y) = Some g1"
    using play_move_Some by blast
  then have "play_move e (Some g) p x y = (fst (play_move e (Some g) p x y), Some g1)"
    by (metis prod.collapse)
  then have "reachable g1" using Cons.prems(1) reachable.moved by blast
  then show ?case using Cons.IH[of g1] Cons.prems(2) a g1 by simp
qed

lemma reachable_game_h: "reachable game_h"
  by (rule reachable.created[of 1 "''human''"]) (simp add: create_game_def game_h_def)

lemma reachable_game_c: "reachable game_c"
  by (rule reachable.created[of 1 "''computer''"]) (simp add: create_game_def game_c_def)

lemma reachable_game_h1: "reachable game_h1"
  using reachable.moved[OF reachable_game_h game_h1_played] .

lemma reachable_game_c1: "reachable game_c1"
  using reachable.moved[OF reachable_game_c game_c1_played] .

lemma reachable_joined: "reachable (game_h\<lparr>player_o_id := Some 2\<rparr>)"
  and joined_row: "snd (join_game (Some game_h) 2) = Some (game_h\<lparr>player_o_id := Some 2\<rparr>)"
proof -
  have j: "join_game (Some game_h) 2 =
          (Inr (snapshot (game_h\<lparr>player_o_id := Some 2\<rparr>)), Some (game_h\<lparr>player_o_id := Some 2\<rparr>))"
    by (simp add: join_game_def game_h_def truthy_id_def Let_def)
  show "reachable (game_h\<lparr>player_o_id := Some 2\<rparr>)"
    using reachable.joined[OF reachable_game_h j] .
  show "snd (join_game (Some game_h) 2) = Some (game_h\<lparr>player_o_id := Some 2\<rparr>)"
    using j by simp
qed

lemma reachable_game_h2: "reachable game_h2"
  using reachable_play_all[OF reachable_joined] game_h2_played unfolding joined_row by blast

lemma reachable_game_five: "reachable game_five"
  using reachable_play_all[OF reachable_joined] game_five_played unfolding joined_row by blast

section \<open>Rejected requests\<close>

text \<open>
  C2. A move request that is rejected by validation (game finished, coordinates out of
  range, not a participant, not the player's turn, cell occupied) returns its reason as
  an error value and leaves the committed row as it was: board, turn, winner, complete
  and the move log are those of before. Every request that fails validation is rejected
  in this way.
\<close>

theorem rejected_move_keeps_state:
  "(fst (play_move e row p x y) = Inl err \<and> rejection err
      \<longrightarrow> snd (play_move e row p x y) = row)
   \<and> (\<not> (\<exists>mark. valid_request g p x y mark)
      \<longrightarrow> (\<exists>err'. play_move e (Some g) p x y = (Inl err', Some g) \<and> rejection err'))"
proof (intro conjI impI)
  assume a: "fst (play_move e row p x y) = Inl err \<and> rejection err"
  show "snd (play_move e row p x y) = row"
  proof (cases row)
    case None
    then show ?thesis by (simp add: play_move_def)
  next
    case (Some g0)
    show ?thesis
    proof (cases "\<exists>mark. valid_request g0 p x y mark")
      case False
      from play_move_rejected[OF this, of e] Some show ?thesis by auto
    next
      case True
      then obtain mark where v: "valid_request g0 p x y mark" ..
      from a show ?thesis unfolding Some play_move_valid[OF v]
        by (auto split: if_splits option.splits)
    qed
  qed
next
  assume "\<not> (\<exists>mark. valid_request g p x y mark)"
  then show "\<exists>err'. play_move e (Some g) p x y = (Inl err', Some g) \<and> rejection err'"
    by (rule play_move_rejected)
qed

theorem rejected_move_keeps_state_witness:
  "fst (play_move env_ok (Some game_h) 1 0 5) = Inl Invalid_coordinates
   \<and> rejection Invalid_coordinates
   \<and> snd (play_move env_ok (Some game_h) 1 0 5) = Some game_h
   \<and> \<not> (\<exists>mark. valid_request game_h 1 0 5 mark)"
  using rejected_move_keeps_state [of env_ok "Some game_h" 1 0 5 Invalid_coordinates game_h]
  by (simp add: play_move_def game_h_def resolve_symbol_def valid_request_def)

text \<open>
  C3, as claimed: the coordinates are checked second, so a request with coordinates out
  of range from a non-participant, or from a participant out of turn, is rejected as out
  of bounds. The code checks the coordinates fourth: player 7, who is no participant of
  \<open>game_h\<close>, is rejected at (5, 5) as not a participant, and player 1, whose turn it is
  not in \<open>game_h1\<close>, is rejected at (5, 5) as not on turn.
\<close>

theorem validation_order_counterexample:
  "\<not> complete game_h \<and> \<not> (0 \<le> (5::int) \<and> (5::int) < 3)
   \<and> fst (play_move env_ok (Some game_h) 7 5 5) = Inl Not_your_game
   \<and> \<not> complete game_h1
   \<and> fst (play_move env_ok (Some game_h1) 1 5 5) = Inl Not_your_turn"
  by (simp add: play_move_def game_h_def game_h1_def resolve_symbol_def)

text \<open>
  C3, amended. The checks of a move request run in this order, the first failure giving
  the reason: (1) the game is not complete, (2) the player resolves to a symbol,
  (3) that symbol is the game's turn, (4) the coordinates are in [0,2] x [0,2],
  (5) the cell is empty. A request that passes all five is not rejected by validation.
\<close>

theorem validation_order:
  "(complete g \<longrightarrow> fst (play_move e (Some g) p x y) = Inl (Game_complete (winner g)))
   \<and> (\<not> complete g \<and> resolve_symbol g p = None
        \<longrightarrow> fst (play_move e (Some g) p x y) = Inl Not_your_game)
   \<and> (\<not> complete g \<and> resolve_symbol g p = Some m \<and> turn g \<noteq> m
        \<longrightarrow> fst (play_move e (Some g) p x y) = Inl Not_your_turn)
   \<and> (\<not> complete g \<and> resolve_symbol g p = Some m \<and> turn g = m
        \<and> \<not> (0 \<le> x \<and> x < 3 \<and> 0 \<le> y \<and> y < 3)
        \<longrightarrow> fst (play_move e (Some g) p x y) = Inl Invalid_coordinates)
   \<and> (\<not> complete g \<and> resolve_symbol g p = Some m \<and> turn g = m
        \<and> 0 \<le> x \<and> x < 3 \<and> 0 \<le> y \<and> y < 3 \<and> truthy (board g ! nat x ! nat y)
        \<longrightarrow> fst (play_move e (Some g) p x y) = Inl Cell_not_empty)
   \<and> (\<not> complete g \<and> resolve_symbol g p = Some m \<and> turn g = m
        \<and> 0 \<le> x \<and> x < 3 \<and> 0 \<le> y \<and> y < 3 \<and> \<not> truthy (board g ! nat x ! nat y)
        \<longrightarrow> (\<forall>err. fst (play_move e (Some g) p x y) = Inl err \<longrightarrow> \<not> rejection err))"
proof (intro conjI impI allI)
  assume "\<not> complete g \<and> resolve_symbol g p = Some m \<and> turn g = m
        \<and> 0 \<le> x \<and> x < 3 \<and> 0 \<le> y \<and> y < 3 \<and> \<not> truthy (board g ! nat x ! nat y)"
  then have v: "valid_request g p x y m" by (simp add: valid_request_def)
  fix err assume "fst (play_move e (Some g) p x y) = Inl err"
  then show "\<not> rejection err" unfolding play_move_valid[OF v]
    by (auto split: if_splits option.splits)
qed (simp_all add: play_move_def)

theorem validation_order_witness:
  "\<not> complete game_h1 \<and> resolve_symbol game_h1 1 = Some ''X'' \<and> turn game_h1 \<noteq> ''X''
   \<and> fst (play_move env_ok (Some game_h1) 1 5 5) = Inl Not_your_turn"
  using validation_order [of game_h1 env_ok 1 5 5 "''X''"]
  by (simp add: game_h1_def resolve_symbol_def)

section \<open>The outcome invariant\<close>




section \<open>The move log and the stored board\<close>

text \<open>
  C4, at a failing input. A human game is created by player 1 and joined by player 2;
  X(0, 0) and O(1, 1) are accepted. The log of the committed row holds the symbols X, O,
  but the move numbers 1, 1 and not 1, 2: the board the second request reads is the
  stored board, which the first request left empty.
\<close>

theorem move_numbers_repeat:
  "play_all env_ok (snd (join_game (Some game_h) 2)) [(1, 0, 0), (2, 1, 1)] = Some game_h2
   \<and> map symbol (moves game_h2) = [''X'', ''O'']
   \<and> map move_number (moves game_h2) = [1, 1]
   \<and> board game_h2 = empty_board \<and> reachable game_h2"
  using game_h2_played reachable_game_h2 by (simp add: game_h2_def)

text \<open>
  C8, at a failing input. After the accepted request X(0, 0) on a new game the committed
  row has the move in its log and the empty board: replaying the log in the order of the
  move numbers gives a board with X at (0, 0), which is not the stored board.
\<close>

theorem replay_differs_from_stored_board:
  "play_move env_ok (Some game_h) 1 0 0 = (Inr (snapshot game_h1), Some game_h1)
   \<and> replay (sort_key move_number (moves game_h1))
       = [[Some ''X'', None, None], [None, None, None], [None, None, None]]
   \<and> board game_h1 = [[None, None, None], [None, None, None], [None, None, None]]
   \<and> replay (sort_key move_number (moves game_h1)) \<noteq> board game_h1
   \<and> reachable game_h1"
proof -
  have r: "replay (sort_key move_number (moves game_h1))
       = [[Some ''X'', None, None], [None, None, None], [None, None, None]]"
    by (simp add: game_h1_def replay_def place_def set_cell_def empty_board_def)
  have b: "board game_h1 = [[None, None, None], [None, None, None], [None, None, None]]"
    by (simp add: game_h1_def empty_board_def)
  show ?thesis using game_h1_played reachable_game_h1 r b by simp
qed

section \<open>Win detection\<close>

lemma check_winner_uniform:
  assumes "board_ok b"
  shows "check_winner b = Some s \<Longrightarrow> (s = ''X'' \<or> s = ''O'') \<and> uniform_line b s"
    and "\<not> uniform_line b ''X'' \<Longrightarrow> \<not> uniform_line b ''O'' \<Longrightarrow> check_winner b = None"
proof -
  { assume c: "check_winner b = Some s"
    then have "s = ''X'' \<or> s = ''O''" by (auto simp: check_winner_def split: if_splits)
    moreover from c have "line_found b s" by (auto simp: check_winner_def split: if_splits)
    then have "uniform_line b s" using line_found_iff[OF assms] by simp
    ultimately show "(s = ''X'' \<or> s = ''O'') \<and> uniform_line b s" by simp }
  { assume "\<not> uniform_line b ''X''" "\<not> uniform_line b ''O''"
    then show "check_winner b = None"
      using line_found_iff[OF assms] by (simp add: check_winner_def) }
qed

text \<open>
  C5, at a failing input. On the board that X(0,0), O(1,1), X(0,1), O(1,0), X(0,2) are
  meant to give, \<open>check_winner\<close> reports X. But after these five accepted requests on
  a new game, joined by player 2, the committed row has the empty board, no winner, and
  is not complete: each request detects on the stored board with its own mark alone.
\<close>

theorem scenario_not_complete:
  "check_winner board_top_row = Some ''X''
   \<and> play_all env_ok (snd (join_game (Some game_h) 2))
       [(1, 0, 0), (2, 1, 1), (1, 0, 1), (2, 1, 0), (1, 0, 2)] = Some game_five
   \<and> board game_five = empty_board \<and> winner game_five = None \<and> \<not> complete game_five
   \<and> reachable game_five"
proof -
  have "check_winner board_top_row = Some ''X''"
    by (simp add: check_winner_def line_found_def board_top_row_def upt_rec)
  then show ?thesis using game_five_played reachable_game_five by (simp add: game_five_def)
qed

section \<open>The computer's move\<close>






text \<open>
  C6, at a failing input. Player 1 creates a game against the computer and plays
  X(0, 0). The request is valid; after the player's move the game is open with turn O,
  so a reply is due. The reply's row of \<open>moves\<close> has no \<open>player_id\<close>, the second commit
  refuses it and the request ends in an error in place of a snapshot: the committed
  row \<open>game_c1\<close> has the player's move alone, turn O and no reply. The cell drawn for the
  reply is (0, 0), the cell just played, since the board read back lacks the player's
  mark.
\<close>

theorem computer_reply_lost:
  "valid_request game_c 1 0 0 ''X''
   \<and> play_move env_ok (Some game_c) 1 0 0 = (Inl Integrity_error, Some game_c1)
   \<and> opponent_type game_c1 = ''computer'' \<and> \<not> complete game_c1 \<and> turn game_c1 = ''O''
   \<and> map symbol (moves game_c1) = [''X'']
   \<and> generate_computer_move (pick env_ok) (board game_c1) = Some (0, 0)
   \<and> reachable game_c"
proof -
  have v: "valid_request game_c 1 0 0 ''X''" by code_simp
  have c: "generate_computer_move (pick env_ok) (board game_c1) = Some (0, 0)" by code_simp
  show ?thesis using v c game_c1_played reachable_game_c by (simp add: game_c1_def)
qed

section \<open>What a request commits\<close>




section \<open>The unassigned O seat\<close>

lemma unassigned_not_participant:
  assumes "opponent_type g = ''human''" "player_o_id g = None" "\<not> complete g"
    "p \<noteq> player_x_id g"
  shows "play_move e (Some g) p x y = (Inl Not_your_game, Some g)"
  using assms by (simp add: play_move_def resolve_symbol_def)

lemma creator_out_of_turn:
  assumes "\<not> complete g" "turn g \<noteq> ''X''"
  shows "play_move e (Some g) (player_x_id g) x y = (Inl Not_your_turn, Some g)"
  using assms by (simp add: play_move_def resolve_symbol_def)

lemma unassigned_accepted:
  assumes inv: "stored_inv g" "seat_inv g"
    and h: "opponent_type g = ''human''" "player_o_id g = None"
    and pm: "play_move e (Some g) p x y = (Inr out, Some g')"
  shows "p = player_x_id g \<and> moves g = [] \<and> g' = first_commit g p x y ''X''"
proof -
  have v: "valid_request g p x y (turn g)" using pm by (rule accepted_valid)
  with h have px: "p = player_x_id g" and tx: "turn g = ''X''"
    by (auto simp: valid_request_def resolve_symbol_def split: if_splits)
  from inv(1) tx have "even (length (moves g))"
    by (auto simp: stored_inv_def split: if_splits)
  moreover from inv(2) h have "length (moves g) \<le> 1" by (simp add: seat_inv_def)
  ultimately have "length (moves g) = 0" by (cases "length (moves g)") auto
  then have m0: "moves g = []" by simp
  have "g' = first_commit g p x y (turn g)"
    using pm unfolding play_move_valid[OF v] by (auto split: if_splits option.splits)
  then show ?thesis using px m0 tx by simp
qed

text \<open>
  C10. In a reachable game against a human whose O seat is unassigned: a request of any
  player other than the X player is rejected as not a participant; a request of the
  X player is rejected whenever the turn is O; an accepted request is the X player's
  first move, it places X, and after it every request is rejected (as not a participant
  or as not on turn) while the seat stays unassigned; the creator's request to join is
  rejected, and a successful join is by another player, who then holds the O seat.
\<close>

theorem unassigned_seat_blocks_O:
  assumes "reachable g" "opponent_type g = ''human''" "player_o_id g = None"
  shows "(p \<noteq> player_x_id g \<longrightarrow> play_move e (Some g) p x y = (Inl Not_your_game, Some g))
     \<and> (turn g = ''O'' \<longrightarrow>
          play_move e (Some g) (player_x_id g) x y = (Inl Not_your_turn, Some g))
     \<and> (play_move e (Some g) p x y = (Inr out, Some g') \<longrightarrow>
          p = player_x_id g \<and> moves g = [] \<and> map symbol (moves g') = [''X'']
          \<and> turn g' = ''O'' \<and> opponent_type g' = ''human'' \<and> player_o_id g' = None
          \<and> (\<forall>e' p' x' y'. \<exists>err. play_move e' (Some g') p' x' y' = (Inl err, Some g')
                \<and> (err = Not_your_game \<or> err = Not_your_turn)))
     \<and> join_game (Some g) (player_x_id g) = (Inl Creator_cant_join, Some g)
     \<and> (join_game (Some g) q = (Inr jout, Some gj) \<longrightarrow>
          q \<noteq> player_x_id g \<and> player_o_id gj = Some q)"
proof (intro conjI impI)
  have inv: "stored_inv g" "seat_inv g" using assms(1) reachable_inv by blast+
  have op: "\<not> complete g" using inv(1) by (simp add: stored_inv_def)
  { assume "p \<noteq> player_x_id g"
    then show "play_move e (Some g) p x y = (Inl Not_your_game, Some g)"
      using assms(2,3) op by (simp add: unassigned_not_participant) }
  { assume "turn g = ''O''"
    then show "play_move e (Some g) (player_x_id g) x y = (Inl Not_your_turn, Some g)"
      using op by (simp add: creator_out_of_turn) }
  show "join_game (Some g) (player_x_id g) = (Inl Creator_cant_join, Some g)"
    using assms(2) by (simp add: join_game_def)
  { assume "join_game (Some g) q = (Inr jout, Some gj)"
    then show "q \<noteq> player_x_id g" "player_o_id gj = Some q"
      by (auto simp: join_game_def Let_def split: if_splits) }
  assume pm: "play_move e (Some g) p x y = (Inr out, Some g')"
  from unassigned_accepted[OF inv assms(2,3) pm]
  have px: "p = player_x_id g" and m0: "moves g = []"
    and g': "g' = first_commit g p x y ''X''" by simp_all
  show "p = player_x_id g" "moves g = []" by (rule px, rule m0)
  have r': "reachable g'" using assms(1) pm by (rule reachable.moved)
  then have inv': "stored_inv g'" using reachable_inv by blast
  show h': "opponent_type g' = ''human''" "player_o_id g' = None"
    using assms(2,3) by (simp_all add: g')
  show ms: "map symbol (moves g') = [''X'']" using m0 by (simp add: g' first_commit_moves)
  have len: "length (moves g') = 1" using m0 by (simp add: g' first_commit_moves)
  have op': "\<not> complete g'" using inv' by (simp add: stored_inv_def)
  show t': "turn g' = ''O''" using inv' len by (simp add: stored_inv_def)
  show "\<forall>e' p' x' y'. \<exists>err. play_move e' (Some g') p' x' y' = (Inl err, Some g')
                \<and> (err = Not_your_game \<or> err = Not_your_turn)"
  proof (intro allI)
    fix e' p' x' y'
    show "\<exists>err. play_move e' (Some g') p' x' y' = (Inl err, Some g')
                \<and> (err = Not_your_game \<or> err = Not_your_turn)"
    proof (cases "p' = player_x_id g'")
      case True
      then show ?thesis using creator_out_of_turn[OF op', of e' x' y'] t' by simp
    next
      case False
      then show ?thesis using unassigned_not_participant[OF h' op' False] by simp
    qed
  qed
qed

theorem unassigned_seat_blocks_O_witness:
  "reachable game_h \<and> opponent_type game_h = ''human'' \<and> player_o_id game_h = None
   \<and> play_move env_ok (Some game_h) 1 0 0 = (Inr (snapshot game_h1), Some game_h1)
   \<and> play_move env_ok (Some game_h1) 1 1 1 = (Inl Not_your_turn, Some game_h1)
   \<and> play_move env_ok (Some game_h1) 2 1 1 = (Inl Not_your_game, Some game_h1)
   \<and> join_game (Some game_h) 1 = (Inl Creator_cant_join, Some game_h)"
proof -
  have h: "opponent_type game_h = ''human''" "player_o_id game_h = None"
    by (simp_all add: game_h_def)
  have a: "play_move env_ok (Some game_h1) 1 1 1 = (Inl Not_your_turn, Some game_h1)"
    by (simp add: play_move_def game_h1_def resolve_symbol_def)
  have b: "play_move env_ok (Some game_h1) 2 1 1 = (Inl Not_your_game, Some game_h1)"
    by (simp add: play_move_def game_h1_def resolve_symbol_def)
  have px: "player_x_id game_h = 1" by (simp add: game_h_def)
  show ?thesis
    using unassigned_seat_blocks_O [OF reachable_game_h h, of 1 env_ok 0 0
        "snapshot game_h1" game_h1 2 "snapshot game_h1" game_h1]
      reachable_game_h h game_h1_played a b
    by (simp add: px)
qed

end
